theory Spec2Isabelle
  imports Complex_Main
begin

section \<open>The psycopg3 connection pool (psycopg3/pool.py)\<close>

text \<open>
  The pool is embedded as a state machine. One record holds everything the pool object
  owns: the configuration, the census \<open>_nconns\<close>, the idle deque \<open>_pool\<close>, the deque of
  waiting clients, the task queue of the workers, the entries handed to the scheduler, and
  two heaps for the objects the code mutates in place (connections and waiting clients,
  addressed by identity). Clock readings (\<open>time.monotonic()\<close>), the value of
  \<open>random.random()\<close> and the outcome of \<open>Connection.connect\<close> are inputs. Times are
  real numbers: the rounding of Python floats is not modelled.

  A \<open>with self._lock:\<close> block brackets its effects between the events \<open>Acquire\<close> and
  \<open>Release\<close> of the trace; calls that leave the pool (closing a connection, rolling back,
  the \<open>reconnect_failed\<close> hook) and writes of \<open>_nconns\<close> are events as well, so that
  the trace tells what happened under the lock and what after it.
\<close>

subsection \<open>Data\<close>

datatype TransactionStatus = IDLE | ACTIVE | INTRANS | INERROR | UNKNOWN

datatype error = ValueError | PoolTimeout | PoolClosed | OperationalError | AttributeError

text \<open>
  A connection as the pool sees it: the back-reference \<open>_pool\<close> (the identity of a pool,
  or none), the transaction status of \<open>pgconn\<close>, and whether the next \<open>rollback()\<close>
  raises, which is the server's choice.
\<close>

record Connection =
  conn_pool :: "nat option"
  transaction_status :: TransactionStatus
  rollback_raises :: bool
  conn_closed :: bool

record WaitingClient =
  wc_event :: bool
  wc_conn :: "nat option"
  wc_error :: "error option"

datatype MaintenanceTask =
    StopWorker
  | AddInitialConnection
  | AddConnection (delay: real) (give_up_at: real)
  | ReturnConnection nat

text \<open>
  What the pool hands to the scheduler: \<open>sched.enter(delay, action)\<close> and
  \<open>sched.enterabs(time, action)\<close>. The only actions are the \<open>retry\<close> method of an
  \<open>AddConnection\<close> task, written as that task, and \<open>None\<close>, which stops the scheduler.
\<close>

datatype sched_entry =
    Enter real "MaintenanceTask option"
  | EnterAbs real "MaintenanceTask option"

datatype event =
    Acquire
  | Release
  | SetNconns int
  | CallClose nat
  | CallRollback nat
  | CallReconnectFailed

record ConnectionPool =
  pool_id :: nat
  minconn :: int
  maxconn :: int
  timeout :: real
  max_idle :: real
  reconnect_timeout :: real
  num_workers :: int
  nconns :: int
  pool :: "(nat \<times> real) list"
  waiting :: "nat list"
  pool_closed :: bool
  sched :: "sched_entry list"
  wqueue :: "MaintenanceTask list"
  workers :: nat
  init_event :: bool
  connections :: "nat \<Rightarrow> Connection"
  waiters :: "nat \<Rightarrow> WaitingClient"
  next_waiter :: nat
  trace :: "event list"

text \<open>The arguments of the constructor the pool logic reads; \<open>arg_self\<close> is the identity
  of the object under construction.\<close>

record pool_args =
  arg_self :: nat
  arg_minconn :: int
  arg_maxconn :: "int option"
  arg_timeout :: real
  arg_max_idle :: real
  arg_reconnect_timeout :: real
  arg_num_workers :: int

datatype checkout = Ready nat | Waiting nat

subsection \<open>Small effects\<close>

definition emit :: "event \<Rightarrow> ConnectionPool \<Rightarrow> ConnectionPool" where
  "emit e s = s\<lparr>trace := trace s @ [e]\<rparr>"

definition add_task :: "MaintenanceTask \<Rightarrow> ConnectionPool \<Rightarrow> ConnectionPool" where
  "add_task t s = s\<lparr>wqueue := wqueue s @ [t]\<rparr>"

definition set_nconns :: "int \<Rightarrow> ConnectionPool \<Rightarrow> ConnectionPool" where
  "set_nconns n s = emit (SetNconns n) (s\<lparr>nconns := n\<rparr>)"

definition set_conn_pool :: "nat \<Rightarrow> nat option \<Rightarrow> ConnectionPool \<Rightarrow> ConnectionPool" where
  "set_conn_pool c p s = s\<lparr>connections := (connections s)(c := (connections s c)\<lparr>conn_pool := p\<rparr>)\<rparr>"

text \<open>Modelled from the spec: \<open>Connection.close\<close> is not among the sources. The spec has
  it infallible and idempotent, and the status of a closed connection is unknown.\<close>

definition Connection_close :: "nat \<Rightarrow> ConnectionPool \<Rightarrow> ConnectionPool" where
  "Connection_close c s =
     emit (CallClose c)
       (s\<lparr>connections := (connections s)
            (c := (connections s c)\<lparr>transaction_status := UNKNOWN, conn_closed := True\<rparr>)\<rparr>)"

text \<open>Modelled from the spec: \<open>Connection.rollback\<close> is not among the sources. It may
  throw; when it does not, the session is idle again. The first component is the exception
  raised, if any.\<close>

definition Connection_rollback :: "nat \<Rightarrow> ConnectionPool \<Rightarrow> error option \<times> ConnectionPool" where
  "Connection_rollback c s =
     (if rollback_raises (connections s c) then (Some OperationalError, emit (CallRollback c) s)
      else (None, emit (CallRollback c)
              (s\<lparr>connections := (connections s)
                   (c := (connections s c)\<lparr>transaction_status := IDLE\<rparr>)\<rparr>)))"

subsection \<open>WaitingClient\<close>

definition WaitingClient_init :: WaitingClient where
  "WaitingClient_init = \<lparr>wc_event = False, wc_conn = None, wc_error = None\<rparr>"

text \<open>\<open>wait\<close> is read at the moment the blocked client wakes up: either the event is set,
  or the timeout has run out.\<close>

definition WaitingClient_wait :: "WaitingClient \<Rightarrow> error + nat" where
  "WaitingClient_wait w =
     (if \<not> wc_event w then Inl PoolTimeout
      else case wc_error w of
             Some e \<Rightarrow> Inl e
           | None \<Rightarrow> (case wc_conn w of Some c \<Rightarrow> Inr c | None \<Rightarrow> Inl AttributeError))"

definition WaitingClient_set :: "nat \<Rightarrow> nat \<Rightarrow> ConnectionPool \<Rightarrow> ConnectionPool" where
  "WaitingClient_set pos c s =
     s\<lparr>waiters := (waiters s)(pos := (waiters s pos)\<lparr>wc_conn := Some c, wc_event := True\<rparr>)\<rparr>"

definition WaitingClient_fail :: "nat \<Rightarrow> error \<Rightarrow> ConnectionPool \<Rightarrow> ConnectionPool" where
  "WaitingClient_fail pos e s =
     s\<lparr>waiters := (waiters s)(pos := (waiters s pos)\<lparr>wc_error := Some e, wc_event := True\<rparr>)\<rparr>"

subsection \<open>AddConnection constants and constructor\<close>

definition INITIAL_DELAY :: real where "INITIAL_DELAY = 1"
definition DELAY_JITTER :: real where "DELAY_JITTER = 1 / 10"
definition DELAY_BACKOFF :: real where "DELAY_BACKOFF = 2"

definition AddConnection_init :: MaintenanceTask where
  "AddConnection_init = AddConnection 0 0"

subsection \<open>ConnectionPool.__init__\<close>

text \<open>The constructor up to the point where it blocks on the event of the initial fill.\<close>

definition ConnectionPool_init :: "pool_args \<Rightarrow> error + ConnectionPool" where
  "ConnectionPool_init a =
     (let maxc = (case arg_maxconn a of None \<Rightarrow> arg_minconn a | Some m \<Rightarrow> m) in
      if maxc < arg_minconn a then Inl ValueError
      else if arg_num_workers a < 1 then Inl ValueError
      else Inr \<lparr>pool_id = arg_self a,
                minconn = arg_minconn a,
                maxconn = maxc,
                timeout = arg_timeout a,
                max_idle = arg_max_idle a,
                reconnect_timeout = arg_reconnect_timeout a,
                num_workers = arg_num_workers a,
                nconns = arg_minconn a,
                pool = [],
                waiting = [],
                pool_closed = False,
                sched = [],
                wqueue = replicate (nat (arg_minconn a)) AddInitialConnection,
                workers = nat (arg_num_workers a),
                init_event = False,
                connections = (\<lambda>_. \<lparr>conn_pool = None, transaction_status = UNKNOWN,
                                      rollback_raises = False, conn_closed = False\<rparr>),
                waiters = (\<lambda>_. WaitingClient_init),
                next_waiter = 0,
                trace = []\<rparr>)"

subsection \<open>getconn\<close>

text \<open>The critical section of \<open>getconn\<close>: the client leaves it with a connection or with
  its place in the queue.\<close>

definition getconn :: "ConnectionPool \<Rightarrow> error + (checkout \<times> ConnectionPool)" where
  "getconn s0 =
     (let s = emit Acquire s0 in
      if pool_closed s then Inl PoolClosed
      else if pool s \<noteq> [] then
        Inr (Ready (fst (last (pool s))), emit Release (s\<lparr>pool := butlast (pool s)\<rparr>))
      else
        let pos = next_waiter s;
            s1 = s\<lparr>waiters := (waiters s)(pos := WaitingClient_init),
                   next_waiter := Suc pos,
                   waiting := waiting s @ [pos]\<rparr>
        in if nconns s1 < maxconn s1
           then Inr (Waiting pos,
                     emit Release (add_task AddConnection_init (set_nconns (nconns s1 + 1) s1)))
           else Inr (Waiting pos, emit Release s1))"

text \<open>The rest of \<open>getconn\<close>, outside the lock: a queued client returns from \<open>wait\<close>,
  and the connection gets its back-reference.\<close>

definition getconn_wait :: "checkout \<Rightarrow> ConnectionPool \<Rightarrow> error + (nat \<times> ConnectionPool)" where
  "getconn_wait r s =
     (case r of
        Ready c \<Rightarrow> Inr (c, set_conn_pool c (Some (pool_id s)) s)
      | Waiting pos \<Rightarrow>
          (case WaitingClient_wait (waiters s pos) of
             Inl e \<Rightarrow> Inl e
           | Inr c \<Rightarrow> Inr (c, set_conn_pool c (Some (pool_id s)) s)))"

subsection \<open>putconn\<close>

definition putconn :: "nat \<Rightarrow> ConnectionPool \<Rightarrow> error + ConnectionPool" where
  "putconn c s =
     (if conn_pool (connections s c) \<noteq> Some (pool_id s) then Inl ValueError
      else if pool_closed s then Inr (Connection_close c (set_conn_pool c None s))
      else Inr (add_task (ReturnConnection c) s))"

subsection \<open>_reset_transaction_status and _add_to_pool\<close>

definition reset_transaction_status :: "nat \<Rightarrow> ConnectionPool \<Rightarrow> ConnectionPool" where
  "reset_transaction_status c s =
     (let status = transaction_status (connections s c) in
      if status = IDLE then s
      else if status = INTRANS \<or> status = INERROR then
        (case Connection_rollback c s of
           (None, s1) \<Rightarrow> s1
         | (Some e, s1) \<Rightarrow> Connection_close c s1)
      else if status = ACTIVE then Connection_close c s
      else s)"

text \<open>The \<open>with self._lock:\<close> block of \<open>_add_to_pool\<close>, without the lock events. It
  returns the waiting client taken from the queue (\<open>pos\<close>) and the connection to close
  (\<open>to_close\<close>). The deque is not empty when its left end is read, an entry having just
  been appended.\<close>

definition add_to_pool_locked ::
  "nat \<Rightarrow> real \<Rightarrow> ConnectionPool \<Rightarrow> nat option \<times> nat option \<times> ConnectionPool" where
  "add_to_pool_locked c now s =
     (case waiting s of
        pos # rest \<Rightarrow> (Some pos, None, s\<lparr>waiting := rest\<rparr>)
      | [] \<Rightarrow>
          (let s1 = s\<lparr>pool := pool s @ [(c, now)]\<rparr> in
           case pool s1 of
             [] \<Rightarrow> (None, None, s1)
           | (c0, t0) # rest \<Rightarrow>
               if nconns s1 > minconn s1 \<and> now - t0 > max_idle s1
               then (None, Some c0, set_nconns (nconns s1 - 1) (s1\<lparr>pool := rest\<rparr>))
               else (None, None, s1)))"

definition add_to_pool :: "nat \<Rightarrow> real \<Rightarrow> ConnectionPool \<Rightarrow> ConnectionPool" where
  "add_to_pool c now s0 =
     (let s = reset_transaction_status c (set_conn_pool c None s0) in
      if transaction_status (connections s c) = UNKNOWN then add_task AddConnection_init s
      else
        (case add_to_pool_locked c now (emit Acquire s) of
           (pos, to_close, s1) \<Rightarrow>
             (let s2 = emit Release s1;
                  s3 = (case pos of Some p \<Rightarrow> WaitingClient_set p c s2 | None \<Rightarrow> s2)
              in case to_close of Some d \<Rightarrow> Connection_close d s3 | None \<Rightarrow> s3)))"

subsection \<open>close\<close>

definition close_waiting_iter :: "ConnectionPool \<Rightarrow> ConnectionPool" where
  "close_waiting_iter s =
     (case waiting s of
        [] \<Rightarrow> s
      | pos # rest \<Rightarrow> WaitingClient_fail pos PoolClosed (s\<lparr>waiting := rest\<rparr>))"

definition close_pool_iter :: "ConnectionPool \<Rightarrow> ConnectionPool" where
  "close_pool_iter s =
     (if pool s = [] then s
      else Connection_close (fst (last (pool s))) (s\<lparr>pool := butlast (pool s)\<rparr>))"

function close_waiting :: "ConnectionPool \<Rightarrow> ConnectionPool" where
  "close_waiting s = (if waiting s = [] then s else close_waiting (close_waiting_iter s))"
  by pat_completeness auto
termination
  by (relation "measure (\<lambda>s. length (waiting s))")
     (auto simp: close_waiting_iter_def WaitingClient_fail_def split: list.splits)

function close_pool :: "ConnectionPool \<Rightarrow> ConnectionPool" where
  "close_pool s = (if pool s = [] then s else close_pool (close_pool_iter s))"
  by pat_completeness auto
termination
  by (relation "measure (\<lambda>s. length (pool s))")
     (auto simp: close_pool_iter_def Connection_close_def emit_def)

definition close_flag :: "ConnectionPool \<Rightarrow> ConnectionPool" where
  "close_flag s = emit Release ((emit Acquire s)\<lparr>pool_closed := True\<rparr>)"

definition close_sched :: "ConnectionPool \<Rightarrow> ConnectionPool" where
  "close_sched s = s\<lparr>sched := sched s @ [Enter 0 None]\<rparr>"

definition close_workers :: "ConnectionPool \<Rightarrow> ConnectionPool" where
  "close_workers s = s\<lparr>wqueue := wqueue s @ replicate (workers s) StopWorker\<rparr>"

definition close :: "ConnectionPool \<Rightarrow> ConnectionPool" where
  "close s = close_workers (close_pool (close_waiting (close_sched (close_flag s))))"

text \<open>The end of the constructor: the wait on the event of the initial fill returns.\<close>

definition ConnectionPool_init_wait :: "ConnectionPool \<Rightarrow> error option \<times> ConnectionPool" where
  "ConnectionPool_init_wait s =
     (if init_event s then (None, s) else (Some PoolTimeout, close s))"

subsection \<open>Maintenance tasks\<close>

text \<open>\<open>_connect\<close>: the outcome of \<open>Connection.connect\<close> followed by \<open>configure\<close> is an
  input, \<open>None\<close> when either raised, otherwise the new object and its state.\<close>

definition connect :: "(nat \<times> Connection) option \<Rightarrow> ConnectionPool \<Rightarrow> nat option \<times> ConnectionPool" where
  "connect res s =
     (case res of
        None \<Rightarrow> (None, s)
      | Some (c, v) \<Rightarrow>
          (Some c, s\<lparr>connections := (connections s)(c := v\<lparr>conn_pool := Some (pool_id s)\<rparr>)\<rparr>))"

definition reconnect_failed :: "ConnectionPool \<Rightarrow> ConnectionPool" where
  "reconnect_failed s = emit CallReconnectFailed s"

text \<open>\<open>AddConnection._handle_error\<close> for the task with fields \<open>d\<close> (\<open>delay\<close>) and \<open>g\<close>
  (\<open>give_up_at\<close>); the task as updated travels with the entry given to the scheduler.\<close>

definition handle_error :: "real \<Rightarrow> real \<Rightarrow> real \<Rightarrow> real \<Rightarrow> ConnectionPool \<Rightarrow> ConnectionPool" where
  "handle_error d g now rnd s =
     (if g \<noteq> 0 \<and> now \<ge> g then
        reconnect_failed (emit Release (set_nconns (nconns s - 1) (emit Acquire s)))
      else
        (let (g1, d1) =
               (if d = 0
                then (now + reconnect_timeout s,
                      INITIAL_DELAY + INITIAL_DELAY * (2 * DELAY_JITTER * rnd - DELAY_JITTER))
                else (g, d * DELAY_BACKOFF))
         in if now + d1 < g1
            then s\<lparr>sched := sched s @ [Enter d1 (Some (AddConnection d1 g1))]\<rparr>
            else s\<lparr>sched := sched s @ [EnterAbs g1 (Some (AddConnection d1 g1))]\<rparr>))"

text \<open>\<open>MaintenanceTask.run\<close>, by task class. An exception of \<open>_connect\<close> in the initial
  fill leaves the task; the worker logs it and goes on.\<close>

definition run_task ::
  "MaintenanceTask \<Rightarrow> (nat \<times> Connection) option \<Rightarrow> real \<Rightarrow> real \<Rightarrow> ConnectionPool \<Rightarrow> ConnectionPool" where
  "run_task t res now rnd s =
     (case t of
        StopWorker \<Rightarrow> s
      | AddInitialConnection \<Rightarrow>
          (case connect res s of
             (None, s1) \<Rightarrow> s1
           | (Some c, s1) \<Rightarrow>
               (let s2 = add_to_pool c now s1 in
                if int (length (pool s2)) \<ge> nconns s2 then s2\<lparr>init_event := True\<rparr> else s2))
      | AddConnection d g \<Rightarrow>
          (case connect res s of
             (None, s1) \<Rightarrow> handle_error d g now rnd s1
           | (Some c, s1) \<Rightarrow> add_to_pool c now s1)
      | ReturnConnection c \<Rightarrow> add_to_pool c now s)"

subsection \<open>The pool as a transition system\<close>

text \<open>
  One action is one atomic piece of some thread's work. A client runs the critical
  section of \<open>getconn\<close>, leaves \<open>getconn\<close>, calls \<open>putconn\<close>, or uses a connection,
  which changes its transaction status. A worker takes a task from the queue and runs it (several workers
  run in parallel, so the tasks reach their critical sections in any order). The scheduler
  fires an entry, which puts the retried task back on the queue. \<open>close\<close> is split at
  the points where other threads can run in between; its loops go one iteration at a
  time. The constructor's wait on the initial fill ends.
\<close>

datatype action =
    Getconn
  | Putconn nat
  | Use nat TransactionStatus bool
  | Work nat "(nat \<times> Connection) option" real real
  | Fire nat
  | CloseFlag
  | CloseWaiting
  | ClosePool
  | CloseWorkers
  | InitWait
  | GetconnWait checkout

definition fire :: "nat \<Rightarrow> ConnectionPool \<Rightarrow> ConnectionPool" where
  "fire i s =
     (if i < length (sched s) then
        (let s1 = s\<lparr>sched := take i (sched s) @ drop (Suc i) (sched s)\<rparr> in
         case sched s ! i of
           Enter x (Some t) \<Rightarrow> add_task t s1
         | EnterAbs x (Some t) \<Rightarrow> add_task t s1
         | Enter x None \<Rightarrow> s1
         | EnterAbs x None \<Rightarrow> s1)
      else s)"

definition work :: "nat \<Rightarrow> (nat \<times> Connection) option \<Rightarrow> real \<Rightarrow> real \<Rightarrow> ConnectionPool \<Rightarrow> ConnectionPool" where
  "work i res now rnd s =
     (if i < length (wqueue s)
      then run_task (wqueue s ! i) res now rnd (s\<lparr>wqueue := take i (wqueue s) @ drop (Suc i) (wqueue s)\<rparr>)
      else s)"

fun step :: "action \<Rightarrow> ConnectionPool \<Rightarrow> ConnectionPool" where
  "step Getconn s = (case getconn s of Inl e \<Rightarrow> s | Inr (r, s1) \<Rightarrow> s1)"
| "step (Putconn c) s = (case putconn c s of Inl e \<Rightarrow> s | Inr s1 \<Rightarrow> s1)"
| "step (Use c st rb) s =
     s\<lparr>connections := (connections s)
         (c := (connections s c)\<lparr>transaction_status := st, rollback_raises := rb\<rparr>)\<rparr>"
| "step (Work i res now rnd) s = work i res now rnd s"
| "step (Fire i) s = fire i s"
| "step CloseFlag s = close_sched (close_flag s)"
| "step CloseWaiting s = (if pool_closed s then close_waiting_iter s else s)"
| "step ClosePool s = (if pool_closed s then close_pool_iter s else s)"
| "step CloseWorkers s = (if pool_closed s then close_workers s else s)"
| "step InitWait s = snd (ConnectionPool_init_wait s)"
| "step (GetconnWait r) s = (case getconn_wait r s of Inl e \<Rightarrow> s | Inr (c, s1) \<Rightarrow> s1)"

fun run :: "action list \<Rightarrow> ConnectionPool \<Rightarrow> ConnectionPool" where
  "run [] s = s"
| "run (a # as) s = run as (step a s)"

inductive reachable :: "ConnectionPool \<Rightarrow> bool" where
  init: "ConnectionPool_init a = Inr s \<Longrightarrow> reachable s"
| step: "reachable s \<Longrightarrow> reachable (step a s)"

text \<open>The number of tasks that have given up so far: the calls of the
  \<open>reconnect_failed\<close> hook in the trace.\<close>

definition give_ups :: "ConnectionPool \<Rightarrow> nat" where
  "give_ups s = length (filter (\<lambda>e. e = CallReconnectFailed) (trace s))"

subsection \<open>Consecutive failures of one task, and example runs\<close>

text \<open>A run of connect failures of the task at the head of the queue: the worker runs it
  and \<open>_connect\<close> raises, then the scheduler fires the retry. Each failure comes with the
  clock reading and the random number of its \<open>_handle_error\<close>.\<close>

fun failures :: "(real \<times> real) list \<Rightarrow> action list" where
  "failures [] = []"
| "failures ((now, rnd) # fs) = Work 0 None now rnd # Fire 0 # failures fs"

definition example_args :: pool_args where
  "example_args =
     \<lparr>arg_self = 1, arg_minconn = 1, arg_maxconn = None, arg_timeout = 30,
      arg_max_idle = 600, arg_reconnect_timeout = 2, arg_num_workers = 1\<rparr>"

definition example_pool :: ConnectionPool where
  "example_pool =
     \<lparr>pool_id = 1, minconn = 1, maxconn = 1, timeout = 30, max_idle = 600,
      reconnect_timeout = 2, num_workers = 1, nconns = 1, pool = [], waiting = [],
      pool_closed = False, sched = [], wqueue = [AddInitialConnection], workers = 1,
      init_event = False,
      connections = (\<lambda>_. \<lparr>conn_pool = None, transaction_status = UNKNOWN,
                            rollback_raises = False, conn_closed = False\<rparr>),
      waiters = (\<lambda>_. WaitingClient_init), next_waiter = 0, trace = []\<rparr>"

definition healthy :: Connection where
  "healthy = \<lparr>conn_pool = None, transaction_status = IDLE, rollback_raises = False,
              conn_closed = False\<rparr>"

text \<open>The initial fill of \<open>example_pool\<close>, then a client checks connection 0 out.\<close>

definition checked_out :: "action list" where
  "checked_out = [Work 0 (Some (0, healthy)) 10 0, Getconn, GetconnWait (Ready 0)]"


text \<open>The replacement is still queued when the pool is closed, and its connect succeeds
  afterwards with the new connection 1.\<close>

definition deposit_after_close_run :: "action list" where
  "deposit_after_close_run =
     checked_out @
     [Use 0 UNKNOWN False, Putconn 0, Work 0 None 20 0,
      CloseFlag, CloseWaiting, ClosePool, CloseWorkers,
      Work 0 (Some (1, healthy)) 30 0]"

text \<open>A second client queues up behind the first and its wait times out; then the first
  client returns connection 0 and the worker deposits it.\<close>

definition waiter_timeout_run :: "action list" where
  "waiter_timeout_run =
     checked_out @ [Getconn, GetconnWait (Waiting 0), Putconn 0, Work 0 None 20 0]"

text \<open>Two clients ask an exhausted pool for a connection.\<close>

definition two_waiters_run :: "action list" where
  "two_waiters_run = checked_out @ [Getconn, Getconn]"

definition negative_args :: pool_args where
  "negative_args = example_args\<lparr>arg_minconn := - 1\<rparr>"

text \<open>Connection 0 is checked out and the client leaves it in a given state.\<close>

definition dirty_pool :: "TransactionStatus \<Rightarrow> bool \<Rightarrow> ConnectionPool" where
  "dirty_pool st rb = run (checked_out @ [Use 0 st rb]) example_pool"

text \<open>The lost connection has been returned and discarded; its replacement is queued.\<close>

definition retrying_pool :: ConnectionPool where
  "retrying_pool =
     run (checked_out @ [Use 0 UNKNOWN False, Putconn 0, Work 0 None 20 0]) example_pool"

text \<open>A pool that may grow to three connections and evicts after five seconds. After
  \<open>both_out\<close> it has grown to two connections and both are checked out; in \<open>one_idle\<close>
  connection 0 has come back.\<close>

definition wide_pool :: ConnectionPool where
  "wide_pool = example_pool\<lparr>maxconn := 3, max_idle := 5\<rparr>"

definition both_out :: "action list" where
  "both_out =
     checked_out @ [Getconn, Work 0 (Some (1, healthy)) 11 0, GetconnWait (Waiting 0)]"

definition one_idle :: ConnectionPool where
  "one_idle = add_to_pool 0 12 (run both_out wide_pool)"

section \<open>Auxiliary facts\<close>

declare close_waiting.simps [simp del] close_pool.simps [simp del]

lemmas small_defs = emit_def add_task_def set_nconns_def set_conn_pool_def Connection_close_def
  Connection_rollback_def WaitingClient_set_def WaitingClient_fail_def reconnect_failed_def

lemma close_waiting_iter_fields:
  "nconns (close_waiting_iter s) = nconns s" "maxconn (close_waiting_iter s) = maxconn s"
  "minconn (close_waiting_iter s) = minconn s" "pool (close_waiting_iter s) = pool s"
  "waiting (close_waiting_iter s) = tl (waiting s)"
  by (simp_all add: close_waiting_iter_def small_defs split: list.splits)

lemma close_pool_iter_fields:
  "nconns (close_pool_iter s) = nconns s" "maxconn (close_pool_iter s) = maxconn s"
  "minconn (close_pool_iter s) = minconn s" "waiting (close_pool_iter s) = waiting s"
  "pool (close_pool_iter s) = butlast (pool s)"
  by (simp_all add: close_pool_iter_def small_defs)

lemma close_waiting_fields:
  "nconns (close_waiting s) = nconns s \<and> maxconn (close_waiting s) = maxconn s
   \<and> minconn (close_waiting s) = minconn s \<and> pool (close_waiting s) = pool s
   \<and> waiting (close_waiting s) = []"
proof (induction s rule: close_waiting.induct)
  case (1 s)
  show ?case
  proof (cases "waiting s = []")
    case True
    then show ?thesis by (simp add: close_waiting.simps [of s])
  next
    case False
    with 1 show ?thesis
      by (simp add: close_waiting.simps [of s] close_waiting_iter_fields)
  qed
qed

lemma close_pool_fields:
  "nconns (close_pool s) = nconns s \<and> maxconn (close_pool s) = maxconn s
   \<and> minconn (close_pool s) = minconn s \<and> waiting (close_pool s) = waiting s
   \<and> pool (close_pool s) = []"
proof (induction s rule: close_pool.induct)
  case (1 s)
  show ?case
  proof (cases "pool s = []")
    case True
    then show ?thesis by (simp add: close_pool.simps [of s])
  next
    case False
    with 1 show ?thesis
      by (simp add: close_pool.simps [of s] close_pool_iter_fields)
  qed
qed

lemma close_fields:
  "nconns (close s) = nconns s" "maxconn (close s) = maxconn s" "minconn (close s) = minconn s"
  "waiting (close s) = []" "pool (close s) = []"
  by (simp_all add: close_def close_workers_def close_waiting_fields close_pool_fields
      close_sched_def close_flag_def emit_def)

lemma reset_fields:
  "nconns (reset_transaction_status c s) = nconns s"
  "maxconn (reset_transaction_status c s) = maxconn s"
  "minconn (reset_transaction_status c s) = minconn s"
  "pool (reset_transaction_status c s) = pool s"
  "waiting (reset_transaction_status c s) = waiting s"
  "wqueue (reset_transaction_status c s) = wqueue s"
  "sched (reset_transaction_status c s) = sched s"
  "max_idle (reset_transaction_status c s) = max_idle s"
  "pool_closed (reset_transaction_status c s) = pool_closed s"
  by (simp_all add: reset_transaction_status_def small_defs Let_def)




lemma add_to_pool_waiting_pool:
  "(waiting s \<noteq> [] \<longrightarrow> pool s = []) \<Longrightarrow>
   waiting (add_to_pool c now s) \<noteq> [] \<longrightarrow> pool (add_to_pool c now s) = []"
  by (auto simp add: add_to_pool_def add_to_pool_locked_def Let_def reset_fields small_defs
      split: list.splits option.splits prod.splits)

lemma handle_error_fields:
  "maxconn (handle_error d g now rnd s) = maxconn s"
  "minconn (handle_error d g now rnd s) = minconn s"
  "pool (handle_error d g now rnd s) = pool s"
  "waiting (handle_error d g now rnd s) = waiting s"
  "nconns (handle_error d g now rnd s) \<le> nconns s"
  by (simp_all add: handle_error_def small_defs Let_def split: prod.splits)

lemma connect_fields:
  "maxconn (snd (connect res s)) = maxconn s" "minconn (snd (connect res s)) = minconn s"
  "pool (snd (connect res s)) = pool s" "waiting (snd (connect res s)) = waiting s"
  "nconns (snd (connect res s)) = nconns s"
  by (simp_all add: connect_def split: option.splits prod.splits)



lemma run_task_waiting_pool:
  assumes "waiting s \<noteq> [] \<longrightarrow> pool s = []"
  shows "waiting (run_task t res now rnd s) \<noteq> [] \<longrightarrow> pool (run_task t res now rnd s) = []"
proof (cases "connect res s")
  case (Pair r s1)
  with connect_fields(3,4) [of res s] assms have i: "waiting s1 \<noteq> [] \<longrightarrow> pool s1 = []"
    by simp
  show ?thesis
    using Pair i assms add_to_pool_waiting_pool [of s1 _ now] add_to_pool_waiting_pool [of s _ now]
    by (simp add: run_task_def Let_def handle_error_fields
        split: MaintenanceTask.splits option.splits)
qed

lemma getconn_fields:
  assumes "getconn s = Inr (r, s1)"
  shows "maxconn s1 = maxconn s" "minconn s1 = minconn s"
    "nconns s \<le> maxconn s \<Longrightarrow> nconns s1 \<le> maxconn s"
    "nconns s \<le> nconns s1"
    "(waiting s \<noteq> [] \<longrightarrow> pool s = []) \<Longrightarrow> (waiting s1 \<noteq> [] \<longrightarrow> pool s1 = [])"
    "waiting s1 \<noteq> waiting s \<Longrightarrow> pool s = []"
  using assms
  by (auto simp add: getconn_def Let_def small_defs split: if_splits)

lemma putconn_fields:
  assumes "putconn c s = Inr s1"
  shows "maxconn s1 = maxconn s" "minconn s1 = minconn s" "nconns s1 = nconns s"
    "pool s1 = pool s" "waiting s1 = waiting s"
  using assms
  by (auto simp add: putconn_def small_defs split: if_splits)

lemma getconn_wait_fields:
  assumes "getconn_wait r s = Inr (c, s1)"
  shows "maxconn s1 = maxconn s" "minconn s1 = minconn s" "nconns s1 = nconns s"
    "pool s1 = pool s" "waiting s1 = waiting s"
  using assms
  by (auto simp add: getconn_wait_def small_defs split: checkout.splits sum.splits)

lemma fire_fields:
  "maxconn (fire i s) = maxconn s" "minconn (fire i s) = minconn s" "nconns (fire i s) = nconns s"
  "pool (fire i s) = pool s" "waiting (fire i s) = waiting s"
  by (simp_all add: fire_def Let_def small_defs split: sched_entry.splits option.splits)



lemma step_waiting_pool:
  assumes "waiting s \<noteq> [] \<longrightarrow> pool s = []"
  shows "waiting (step a s) \<noteq> [] \<longrightarrow> pool (step a s) = []"
proof (cases a)
  case (Work i res now rnd)
  then show ?thesis
    using assms run_task_waiting_pool
      [of "s\<lparr>wqueue := take i (wqueue s) @ drop (Suc i) (wqueue s)\<rparr>" "wqueue s ! i" res now rnd]
    by (simp add: work_def)
next
  case Getconn
  then show ?thesis using assms getconn_fields(5) [of s]
    by (simp split: sum.splits prod.splits)
next
  case CloseWaiting
  then show ?thesis using assms
    by (auto simp add: close_waiting_iter_fields dest: list.set_sel(2))
qed (use assms in \<open>simp_all add: putconn_fields getconn_wait_fields fire_fields
      close_fields close_waiting_iter_fields close_pool_iter_fields
      close_workers_def close_sched_def close_flag_def emit_def ConnectionPool_init_wait_def
      split: sum.splits prod.splits\<close>)

lemma init_fields:
  assumes "ConnectionPool_init a = Inr s"
  shows "nconns s \<le> maxconn s" "nconns s = minconn s" "waiting s = []" "pool s = []"
proof -
  define maxc where "maxc = (case arg_maxconn a of None \<Rightarrow> arg_minconn a | Some m \<Rightarrow> m)"
  from assms have ok: "\<not> maxc < arg_minconn a"
    by (auto simp add: ConnectionPool_init_def maxc_def Let_def split: if_splits)
  from assms have "nconns s = arg_minconn a \<and> maxconn s = maxc \<and> minconn s = arg_minconn a
      \<and> waiting s = [] \<and> pool s = []"
    by (auto simp add: ConnectionPool_init_def maxc_def Let_def split: if_splits)
  with ok show "nconns s \<le> maxconn s" "nconns s = minconn s" "waiting s = []" "pool s = []"
    by simp_all
qed


lemma reachable_waiting_pool: "reachable s \<Longrightarrow> waiting s \<noteq> [] \<longrightarrow> pool s = []"
proof (induction rule: reachable.induct)
  case (init a s)
  then show ?case by (simp add: init_fields)
next
  case (step s a)
  from step.IH show ?case by (rule step_waiting_pool)
qed

lemma reachable_run: "reachable s \<Longrightarrow> reachable (run as s)"
  by (induction as arbitrary: s) (auto intro: reachable.step)

lemma example_pool_init: "ConnectionPool_init example_args = Inr example_pool"
  by (simp add: ConnectionPool_init_def example_args_def example_pool_def)

lemma reachable_example: "reachable (run as example_pool)"
  by (rule reachable_run [OF reachable.init [OF example_pool_init]])

lemma add_to_pool_frame:
  "pool_closed (add_to_pool c now s) = pool_closed s"
  "max_idle (add_to_pool c now s) = max_idle s"
  "waiting s = [] \<Longrightarrow> waiting (add_to_pool c now s) = []"
  by (simp_all add: add_to_pool_def add_to_pool_locked_def Let_def reset_fields small_defs
      split: list.splits option.splits prod.splits)

lemma add_to_pool_deposit:
  assumes "waiting s = []"
    and "transaction_status (connections (reset_transaction_status c (set_conn_pool c None s)) c) \<noteq> UNKNOWN"
  shows "let s0 = reset_transaction_status c (set_conn_pool c None s);
             oldest = hd (pool s @ [(c, now)]);
             s' = add_to_pool c now s
         in if minconn s < nconns s \<and> max_idle s < now - snd oldest
            then pool s' = tl (pool s @ [(c, now)]) \<and> nconns s' = nconns s - 1
                 \<and> trace s' = trace s0 @ [Acquire, SetNconns (nconns s - 1), Release, CallClose (fst oldest)]
                 \<and> conn_closed (connections s' (fst oldest))
            else pool s' = pool s @ [(c, now)] \<and> nconns s' = nconns s
                 \<and> trace s' = trace s0 @ [Acquire, Release]
                 \<and> connections s' = connections s0"
proof -
  define s0 where "s0 = reset_transaction_status c (set_conn_pool c None s)"
  have f: "waiting s0 = []" "pool s0 = pool s" "nconns s0 = nconns s" "minconn s0 = minconn s"
    "max_idle s0 = max_idle s"
    using assms(1) by (simp_all add: s0_def reset_fields set_conn_pool_def)
  from assms(2) have u: "transaction_status (connections s0 c) \<noteq> UNKNOWN" by (simp add: s0_def)
  have "add_to_pool c now s =
      (case add_to_pool_locked c now (emit Acquire s0) of
           (pos, to_close, s1) \<Rightarrow>
             (let s2 = emit Release s1;
                  s3 = (case pos of Some p \<Rightarrow> WaitingClient_set p c s2 | None \<Rightarrow> s2)
              in case to_close of Some d \<Rightarrow> Connection_close d s3 | None \<Rightarrow> s3))"
    using u by (simp add: add_to_pool_def s0_def Let_def)
  then show ?thesis
    unfolding s0_def [symmetric] Let_def
    using f
    by (cases "pool s")
       (auto simp add: add_to_pool_locked_def emit_def set_nconns_def Connection_close_def Let_def)
qed

lemma fire_single:
  "sched s = [e] \<Longrightarrow> e = Enter x (Some t) \<or> e = EnterAbs x (Some t) \<Longrightarrow>
   fire 0 s = s\<lparr>sched := [], wqueue := wqueue s @ [t]\<rparr>"
  by (auto simp add: fire_def add_task_def Let_def)

lemma work_failure:
  "wqueue s = [AddConnection d g] \<Longrightarrow>
   work 0 None now rnd s = handle_error d g now rnd (s\<lparr>wqueue := []\<rparr>)"
  by (simp add: work_def run_task_def connect_def)

lemma handle_error_retry:
  assumes "\<not> (g \<noteq> 0 \<and> g \<le> now)"
  shows "handle_error d g now rnd s =
     (let g1 = (if d = 0 then now + reconnect_timeout s else g);
          d1 = (if d = 0
                then INITIAL_DELAY + INITIAL_DELAY * (2 * DELAY_JITTER * rnd - DELAY_JITTER)
                else d * DELAY_BACKOFF)
      in s\<lparr>sched := sched s @
            [if now + d1 < g1 then Enter d1 (Some (AddConnection d1 g1))
             else EnterAbs g1 (Some (AddConnection d1 g1))]\<rparr>)"
  using assms by (cases "g = 0") (auto simp add: handle_error_def Let_def)

lemma handle_error_give_up:
  assumes "g \<noteq> 0" "g \<le> now"
  shows "handle_error d g now rnd s =
     s\<lparr>nconns := nconns s - 1,
       trace := trace s @ [Acquire, SetNconns (nconns s - 1), Release, CallReconnectFailed]\<rparr>"
  using assms by (simp add: handle_error_def small_defs)

lemma retry_round:
  assumes "wqueue s = [AddConnection d g]" "sched s = []" "d \<noteq> 0" "now < g"
  shows "step (Fire 0) (step (Work 0 None now rnd) s)
         = s\<lparr>wqueue := [AddConnection (d * DELAY_BACKOFF) g]\<rparr>"
proof -
  from assms(4) have n: "\<not> (g \<noteq> 0 \<and> g \<le> now)" by simp
  let ?e = "if now + d * DELAY_BACKOFF < g
            then Enter (d * DELAY_BACKOFF) (Some (AddConnection (d * DELAY_BACKOFF) g))
            else EnterAbs g (Some (AddConnection (d * DELAY_BACKOFF) g))"
  have w: "step (Work 0 None now rnd) s = s\<lparr>wqueue := [], sched := [?e]\<rparr>"
    using assms(1,2,3) by (simp add: work_failure handle_error_retry [OF n] Let_def)
  show ?thesis
    unfolding w using assms(2)
    by (simp add: fire_single [where s = "s\<lparr>wqueue := [], sched := [?e]\<rparr>" and e = ?e
          and x = "if now + d * DELAY_BACKOFF < g then d * DELAY_BACKOFF else g"
          and t = "AddConnection (d * DELAY_BACKOFF) g"])
qed

lemma failures_run:
  assumes "wqueue s = [AddConnection d g]" "sched s = []" "d \<noteq> 0"
    and "\<forall>(t, r) \<in> set fs. t < g"
  shows "run (failures fs) s = s\<lparr>wqueue := [AddConnection (d * DELAY_BACKOFF ^ length fs) g]\<rparr>"
  using assms
proof (induction fs arbitrary: s d)
  case Nil
  then show ?case by simp
next
  case (Cons f fs)
  obtain t r where f: "f = (t, r)" by (cases f)
  from Cons.prems(4) f have t: "t < g" and rest: "\<forall>(t, r) \<in> set fs. t < g" by auto
  let ?s1 = "s\<lparr>wqueue := [AddConnection (d * DELAY_BACKOFF) g]\<rparr>"
  have r1: "step (Fire 0) (step (Work 0 None t r) s) = ?s1"
    by (rule retry_round [OF Cons.prems(1,2,3) t])
  have d2: "d * DELAY_BACKOFF \<noteq> 0" using Cons.prems(3) by (simp add: DELAY_BACKOFF_def)
  have "run (failures fs) ?s1
        = ?s1\<lparr>wqueue := [AddConnection (d * DELAY_BACKOFF * DELAY_BACKOFF ^ length fs) g]\<rparr>"
    by (rule Cons.IH) (use Cons.prems(2) d2 rest in simp_all)
  also have "\<dots> = s\<lparr>wqueue := [AddConnection (d * DELAY_BACKOFF ^ length (f # fs)) g]\<rparr>"
    by (simp add: mult.assoc)
  finally have "run (failures fs) ?s1
        = s\<lparr>wqueue := [AddConnection (d * DELAY_BACKOFF ^ length (f # fs)) g]\<rparr>" .
  moreover have "run (failures (f # fs)) s = run (failures fs) ?s1"
    using r1 by (simp add: f)
  ultimately show ?case by simp
qed

lemma first_failure_step:
  "nconns (run_task AddConnection_init None now rnd s) = nconns s
   \<and> trace (run_task AddConnection_init None now rnd s) = trace s
   \<and> wqueue (run_task AddConnection_init None now rnd s) = wqueue s
   \<and> sched (run_task AddConnection_init None now rnd s)
       = sched s @
         [let d = INITIAL_DELAY + INITIAL_DELAY * (2 * DELAY_JITTER * rnd - DELAY_JITTER);
              g = now + reconnect_timeout s
          in if now + d < g then Enter d (Some (AddConnection d g))
             else EnterAbs g (Some (AddConnection d g))]"
  by (simp add: run_task_def AddConnection_init_def connect_def handle_error_def Let_def)

subsection \<open>The census and the tasks that gave up\<close>






















lemma init_give_ups: "ConnectionPool_init a = Inr s \<Longrightarrow> give_ups s = 0"
  by (auto simp add: ConnectionPool_init_def Let_def give_ups_def split: if_splits)


subsection \<open>The example states\<close>

lemma dirty_pool_fields:
  "transaction_status (connections (dirty_pool st rb) 0) = st"
  "rollback_raises (connections (dirty_pool st rb) 0) = rb"
  "trace (dirty_pool st rb) = [Acquire, Release, Acquire, Release]"
  "nconns (dirty_pool st rb) = 1" "wqueue (dirty_pool st rb) = []"
  "conn_closed (connections (dirty_pool st rb) 0) = False"
  unfolding dirty_pool_def by code_simp+

lemma retrying_pool_fields:
  "wqueue retrying_pool = [AddConnection_init]" "sched retrying_pool = []"
  "reconnect_timeout retrying_pool = 2" "nconns retrying_pool = 1"
  "trace retrying_pool = [Acquire, Release, Acquire, Release]"
  unfolding retrying_pool_def by code_simp+

lemma both_out_fields:
  "waiting (run both_out wide_pool) = []" "\<not> pool_closed (run both_out wide_pool)"
  "max_idle (run both_out wide_pool) = 5" "pool (run both_out wide_pool) = []"
  "nconns (run both_out wide_pool) = 2" "minconn (run both_out wide_pool) = 1"
  "transaction_status (connections (reset_transaction_status 0
      (set_conn_pool 0 None (run both_out wide_pool))) 0) \<noteq> UNKNOWN"
  by code_simp+

lemma one_idle_fields:
  "waiting one_idle = []" "\<not> pool_closed one_idle" "pool one_idle = [(0, 12)]"
  "nconns one_idle = 2" "minconn one_idle = 1" "max_idle one_idle = 5"
  "transaction_status (connections (reset_transaction_status 1
      (set_conn_pool 1 None one_idle)) 1) \<noteq> UNKNOWN"
  "trace (reset_transaction_status 1 (set_conn_pool 1 None one_idle))
     = [Acquire, Release, Acquire, Release, Acquire, SetNconns 2, Release,
        Acquire, Release, Acquire, Release]"
  unfolding one_idle_def by code_simp+


lemma wide_pool_init:
  "ConnectionPool_init (example_args\<lparr>arg_maxconn := Some 3, arg_max_idle := 5\<rparr>) = Inr wide_pool"
  by (simp add: ConnectionPool_init_def example_args_def example_pool_def wide_pool_def)

section \<open>The claims\<close>

subsection \<open>C1: the census and its bounds\<close>




subsection \<open>C2: a deposit into a closed pool\<close>

text \<open>
  C2. The claim has \<open>_add_to_pool\<close> close a connection that arrives after the pool was
  closed. The code never reads \<open>_closed\<close> there. In the run below a replacement task is
  queued when \<open>close\<close> runs (the queue then holds it in front of the \<open>StopWorker\<close>);
  its connect succeeds afterwards, and the new connection 1 is appended to the idle deque
  of the closed pool without being closed.
\<close>

theorem deposit_after_close:
  "pool_closed (run (butlast deposit_after_close_run) example_pool)
   \<and> wqueue (run (butlast deposit_after_close_run) example_pool)
       = [AddConnection_init, StopWorker]
   \<and> pool_closed (run deposit_after_close_run example_pool)
   \<and> pool (run deposit_after_close_run example_pool) = [(1, 30)]
   \<and> \<not> conn_closed (connections (run deposit_after_close_run example_pool) 1)
   \<and> CallClose 1 \<notin> set (trace (run deposit_after_close_run example_pool))"
  by code_simp

theorem deposit_after_close_witness:
  "reachable (run deposit_after_close_run example_pool)
   \<and> pool_closed (run deposit_after_close_run example_pool)
   \<and> pool (run deposit_after_close_run example_pool) \<noteq> []"
  using deposit_after_close reachable_example [of deposit_after_close_run] by simp

subsection \<open>C3: a deposit to a waiter that has timed out\<close>

text \<open>
  C3. The claim has the connection handed to a timed-out waiter deposited again. In the
  code \<open>wait\<close> raises \<open>PoolTimeout\<close> and leaves the waiter in the queue; the next
  deposit takes it from the queue and stores the connection in it, and nothing reads it
  afterwards. In the run below the second client has left with \<open>PoolTimeout\<close>, the first
  has returned connection 0, and after the deposit the connection is open but in no deque,
  no queued task and no scheduler entry; only the abandoned waiter refers to it. The census
  still counts it, so the next client waits and no connection is created for it.
\<close>

theorem waiter_timeout_leak:
  "isl (getconn_wait (Waiting 0) (run (checked_out @ [Getconn]) example_pool))
   \<and> projl (getconn_wait (Waiting 0) (run (checked_out @ [Getconn]) example_pool)) = PoolTimeout
   \<and> waiting (run (checked_out @ [Getconn, GetconnWait (Waiting 0)]) example_pool) = [0]
   \<and> pool (run waiter_timeout_run example_pool) = []
   \<and> waiting (run waiter_timeout_run example_pool) = []
   \<and> wqueue (run waiter_timeout_run example_pool) = []
   \<and> sched (run waiter_timeout_run example_pool) = []
   \<and> wc_conn (waiters (run waiter_timeout_run example_pool) 0) = Some 0
   \<and> \<not> conn_closed (connections (run waiter_timeout_run example_pool) 0)
   \<and> nconns (run waiter_timeout_run example_pool) = maxconn (run waiter_timeout_run example_pool)
   \<and> fst (projr (getconn (run waiter_timeout_run example_pool))) = Waiting 1
   \<and> wqueue (snd (projr (getconn (run waiter_timeout_run example_pool)))) = []"
  by code_simp

theorem waiter_timeout_leak_witness:
  "reachable (run waiter_timeout_run example_pool)
   \<and> pool (run waiter_timeout_run example_pool) = []
   \<and> wc_conn (waiters (run waiter_timeout_run example_pool) 0) = Some 0"
  using waiter_timeout_leak reachable_example [of waiter_timeout_run] by simp

subsection \<open>C4: validation in the constructor\<close>

text \<open>What the constructor checks: it raises exactly when \<open>maxconn\<close> (defaulting to
  \<open>minconn\<close>) is below \<open>minconn\<close>, or \<open>num_workers\<close> is below 1.\<close>

lemma init_raises_iff:
  "isl (ConnectionPool_init a) \<longleftrightarrow>
     (case arg_maxconn a of None \<Rightarrow> arg_minconn a | Some m \<Rightarrow> m) < arg_minconn a
     \<or> arg_num_workers a < 1"
  by (simp add: ConnectionPool_init_def Let_def)

text \<open>
  C4. The claim has the constructor raise a configuration error if and only if
  \<open>maxconn < minconn\<close>, or \<open>minconn < 0\<close>, or \<open>num_workers < 1\<close>. The code does
  not look at the sign of \<open>minconn\<close>: with \<open>minconn = -1\<close> and \<open>maxconn\<close> left to its
  default no \<open>ValueError\<close> is raised, the threads are started with a census of \<open>-1\<close>
  and no task to fill the pool, and the constructor ends with \<open>PoolTimeout\<close> once its
  wait on the initial fill runs out.
\<close>

theorem init_negative_minconn:
  "arg_minconn negative_args < 0
   \<and> \<not> isl (ConnectionPool_init negative_args)
   \<and> nconns (projr (ConnectionPool_init negative_args)) = - 1
   \<and> workers (projr (ConnectionPool_init negative_args)) = 1
   \<and> wqueue (projr (ConnectionPool_init negative_args)) = []
   \<and> fst (ConnectionPool_init_wait (projr (ConnectionPool_init negative_args)))
       = Some PoolTimeout"
  by (simp add: ConnectionPool_init_def negative_args_def example_args_def
      ConnectionPool_init_wait_def Let_def)

theorem init_negative_minconn_witness:
  "\<not> isl (ConnectionPool_init negative_args)
   \<and> nconns (projr (ConnectionPool_init negative_args)) < 0"
  using init_negative_minconn by simp

subsection \<open>C5: retries with backoff, and giving up\<close>

text \<open>
  C5. A freshly posted \<open>AddConnection\<close> task fails to connect at \<open>now1\<close>, then again at
  each time of \<open>fs\<close> (all before the deadline), then once more at \<open>now\<close>. The first
  failure sets \<open>give_up_at\<close> to \<open>now1 + reconnect_timeout\<close> and \<open>delay\<close> to
  \<open>INITIAL_DELAY\<close> times a factor between 0.9 and 1.1; every later failure doubles
  \<open>delay\<close>; each retry is entered after \<open>delay\<close> when \<open>now + delay < give_up_at\<close> and
  at \<open>give_up_at\<close> otherwise; and a failure at or after \<open>give_up_at\<close> writes
  \<open>_nconns - 1\<close> between \<open>Acquire\<close> and \<open>Release\<close>, calls \<open>reconnect_failed\<close> after
  the \<open>Release\<close>, and enters no retry. The random number is in \<open>[0, 1)\<close>, as
  \<open>random.random()\<close> gives it, and the deadline is not \<open>0.0\<close>, which the code reads as
  no deadline set: so it is whenever the clock is positive and the timeout not negative.
\<close>

theorem handle_error_backoff:
  assumes fresh: "wqueue s = [AddConnection_init]" "sched s = []"
    and rnd: "0 \<le> rnd1" "rnd1 < 1"
    and armed: "now1 + reconnect_timeout s \<noteq> 0"
    and early: "\<forall>(t, r) \<in> set fs. t < now1 + reconnect_timeout s"
  shows
    "let g = now1 + reconnect_timeout s;
         d1 = INITIAL_DELAY + INITIAL_DELAY * (2 * DELAY_JITTER * rnd1 - DELAY_JITTER);
         s1 = step (Work 0 None now1 rnd1) s;
         sk = run (failures fs) (step (Fire 0) s1);
         dk = d1 * DELAY_BACKOFF ^ length fs;
         s' = step (Work 0 None now rnd) sk
     in INITIAL_DELAY * (9 / 10) \<le> d1 \<and> d1 \<le> INITIAL_DELAY * (11 / 10)
        \<and> sched s1 = [if now1 + d1 < g then Enter d1 (Some (AddConnection d1 g))
                       else EnterAbs g (Some (AddConnection d1 g))]
        \<and> wqueue s1 = [] \<and> nconns s1 = nconns s \<and> trace s1 = trace s
        \<and> wqueue sk = [AddConnection dk g] \<and> sched sk = []
        \<and> nconns sk = nconns s \<and> trace sk = trace s
        \<and> (if g \<le> now
            then trace s' = trace s @ [Acquire, SetNconns (nconns s - 1), Release, CallReconnectFailed]
                 \<and> nconns s' = nconns s - 1 \<and> sched s' = [] \<and> wqueue s' = []
            else sched s' = [if now + dk * DELAY_BACKOFF < g
                             then Enter (dk * DELAY_BACKOFF) (Some (AddConnection (dk * DELAY_BACKOFF) g))
                             else EnterAbs g (Some (AddConnection (dk * DELAY_BACKOFF) g))]
                 \<and> wqueue s' = [] \<and> nconns s' = nconns s \<and> trace s' = trace s)"
proof -
  define g where "g = now1 + reconnect_timeout s"
  define d1 where "d1 = INITIAL_DELAY + INITIAL_DELAY * (2 * DELAY_JITTER * rnd1 - DELAY_JITTER)"
  define e1 where "e1 = (if now1 + d1 < g then Enter d1 (Some (AddConnection d1 g))
                       else EnterAbs g (Some (AddConnection d1 g)))"
  define s1 where "s1 = step (Work 0 None now1 rnd1) s"
  define s2 where "s2 = step (Fire 0) s1"
  define sk where "sk = run (failures fs) s2"
  define dk where "dk = d1 * DELAY_BACKOFF ^ length fs"
  define s' where "s' = step (Work 0 None now rnd) sk"
  have b: "INITIAL_DELAY * (9 / 10) \<le> d1" "d1 \<le> INITIAL_DELAY * (11 / 10)"
    using rnd by (simp_all add: d1_def INITIAL_DELAY_def DELAY_JITTER_def)
  then have d1nz: "d1 \<noteq> 0" by (simp add: INITIAL_DELAY_def)
  have s1: "s1 = s\<lparr>wqueue := [], sched := [e1]\<rparr>"
    using fresh
    by (simp add: s1_def AddConnection_init_def work_failure handle_error_retry Let_def
        e1_def d1_def g_def)
  have s2: "s2 = s\<lparr>wqueue := [AddConnection d1 g]\<rparr>"
    unfolding s2_def s1 using fresh(2)
    by (simp add: fire_single [where e = e1 and x = "if now1 + d1 < g then d1 else g"
          and t = "AddConnection d1 g"] e1_def)
  have sk: "sk = s\<lparr>wqueue := [AddConnection dk g]\<rparr>"
    unfolding sk_def dk_def
    using failures_run [of s2 d1 g fs] fresh(2) d1nz early
    by (simp add: s2 g_def)
  have dknz: "dk \<noteq> 0" using d1nz by (simp add: dk_def DELAY_BACKOFF_def)
  have w: "s' = handle_error dk g now rnd (s\<lparr>wqueue := []\<rparr>)"
    by (simp add: s'_def sk work_failure)
  have gu: "trace s' = trace s @ [Acquire, SetNconns (nconns s - 1), Release, CallReconnectFailed]
      \<and> nconns s' = nconns s - 1 \<and> sched s' = [] \<and> wqueue s' = []" if "g \<le> now"
    using that armed fresh(2) by (simp add: w handle_error_give_up g_def)
  have re: "sched s' = [if now + dk * DELAY_BACKOFF < g
                             then Enter (dk * DELAY_BACKOFF) (Some (AddConnection (dk * DELAY_BACKOFF) g))
                             else EnterAbs g (Some (AddConnection (dk * DELAY_BACKOFF) g))]
                 \<and> wqueue s' = [] \<and> nconns s' = nconns s \<and> trace s' = trace s" if "\<not> g \<le> now"
    using that dknz fresh(2) by (simp add: w handle_error_retry Let_def)
  have "INITIAL_DELAY * (9 / 10) \<le> d1 \<and> d1 \<le> INITIAL_DELAY * (11 / 10)
        \<and> sched s1 = [e1]
        \<and> wqueue s1 = [] \<and> nconns s1 = nconns s \<and> trace s1 = trace s
        \<and> wqueue sk = [AddConnection dk g] \<and> sched sk = []
        \<and> nconns sk = nconns s \<and> trace sk = trace s
        \<and> (if g \<le> now
            then trace s' = trace s @ [Acquire, SetNconns (nconns s - 1), Release, CallReconnectFailed]
                 \<and> nconns s' = nconns s - 1 \<and> sched s' = [] \<and> wqueue s' = []
            else sched s' = [if now + dk * DELAY_BACKOFF < g
                             then Enter (dk * DELAY_BACKOFF) (Some (AddConnection (dk * DELAY_BACKOFF) g))
                             else EnterAbs g (Some (AddConnection (dk * DELAY_BACKOFF) g))]
                 \<and> wqueue s' = [] \<and> nconns s' = nconns s \<and> trace s' = trace s)"
    using b gu re fresh(2) by (simp add: s1 sk)
  then show ?thesis
    unfolding Let_def g_def d1_def e1_def s1_def s2_def sk_def dk_def s'_def .
qed

theorem handle_error_backoff_witness:
  "wqueue retrying_pool = [AddConnection_init] \<and> sched retrying_pool = []
   \<and> sched (step (Work 0 None 21 (1 / 2)) retrying_pool) = [Enter 1 (Some (AddConnection 1 23))]
   \<and> wqueue (run (failures [(221 / 10, 0)]) (step (Fire 0) (step (Work 0 None 21 (1 / 2)) retrying_pool)))
       = [AddConnection 2 23]
   \<and> trace (step (Work 0 None (2305 / 100) 0)
        (run (failures [(221 / 10, 0)]) (step (Fire 0) (step (Work 0 None 21 (1 / 2)) retrying_pool))))
       = [Acquire, Release, Acquire, Release, Acquire, SetNconns 0, Release, CallReconnectFailed]
   \<and> sched (step (Work 0 None (225 / 10) 0)
        (run (failures [(221 / 10, 0)]) (step (Fire 0) (step (Work 0 None 21 (1 / 2)) retrying_pool))))
       = [EnterAbs 23 (Some (AddConnection 4 23))]"
proof -
  have h: "(0::real) \<le> 1 / 2" "(1 / 2 :: real) < 1" "21 + reconnect_timeout retrying_pool \<noteq> 0"
    "\<forall>(t, r) \<in> set [(221 / 10 :: real, 0 :: real)]. t < 21 + reconnect_timeout retrying_pool"
    by (simp_all add: retrying_pool_fields)
  note a = handle_error_backoff [OF retrying_pool_fields(1,2) h, of "2305 / 100" 0]
  note b = handle_error_backoff [OF retrying_pool_fields(1,2) h, of "225 / 10" 0]
  from a b show ?thesis
    by (simp add: Let_def retrying_pool_fields INITIAL_DELAY_def DELAY_JITTER_def DELAY_BACKOFF_def)
qed

subsection \<open>C6: the idle deque as a stack with eviction at the old end\<close>

text \<open>
  C6. \<open>getconn\<close> on an open pool with idle connections takes the entry appended last.
  A deposit that finds no waiter appends its connection, and then removes the oldest entry
  exactly when \<open>_nconns > minconn\<close> and \<open>now\<close> minus that entry's timestamp exceeds
  \<open>max_idle\<close>; then \<open>_nconns\<close> is written one lower under the lock and the evicted
  connection is closed after the \<open>Release\<close>; otherwise nothing is evicted or closed.
  If \<open>c1\<close> and then \<open>c2\<close> are deposited into an open pool without waiters (and
  \<open>max_idle\<close> is not negative), the next \<open>getconn\<close> returns \<open>c2\<close>.
\<close>

theorem idle_lifo_fifo_eviction:
  "(\<not> pool_closed s \<and> pool s \<noteq> [] \<longrightarrow>
      (\<exists>s1. getconn s = Inr (Ready (fst (last (pool s))), s1) \<and> pool s1 = butlast (pool s)))
   \<and> (waiting s = []
       \<and> transaction_status (connections (reset_transaction_status c (set_conn_pool c None s)) c) \<noteq> UNKNOWN \<longrightarrow>
        (let s0 = reset_transaction_status c (set_conn_pool c None s);
             oldest = hd (pool s @ [(c, now)]);
             s' = add_to_pool c now s
         in if minconn s < nconns s \<and> max_idle s < now - snd oldest
            then pool s' = tl (pool s @ [(c, now)]) \<and> nconns s' = nconns s - 1
                 \<and> trace s' = trace s0 @ [Acquire, SetNconns (nconns s - 1), Release, CallClose (fst oldest)]
                 \<and> conn_closed (connections s' (fst oldest))
            else pool s' = pool s @ [(c, now)] \<and> nconns s' = nconns s
                 \<and> trace s' = trace s0 @ [Acquire, Release]
                 \<and> connections s' = connections s0))
   \<and> (waiting s = [] \<and> \<not> pool_closed s \<and> 0 \<le> max_idle s
       \<and> transaction_status (connections (reset_transaction_status c1 (set_conn_pool c1 None s)) c1) \<noteq> UNKNOWN
       \<and> transaction_status (connections (reset_transaction_status c2
             (set_conn_pool c2 None (add_to_pool c1 t1 s))) c2) \<noteq> UNKNOWN \<longrightarrow>
        (\<exists>s1. getconn (add_to_pool c2 t2 (add_to_pool c1 t1 s)) = Inr (Ready c2, s1)))"
proof -
  have pop: "\<exists>s1. getconn s = Inr (Ready (fst (last (pool s))), s1) \<and> pool s1 = butlast (pool s)"
    if "\<not> pool_closed s" "pool s \<noteq> []" for s
    using that by (simp add: getconn_def Let_def emit_def)
  have lifo: "\<exists>s1. getconn (add_to_pool c2 t2 (add_to_pool c1 t1 s)) = Inr (Ready c2, s1)"
    if w: "waiting s = []" and o: "\<not> pool_closed s" and m: "0 \<le> max_idle s"
      and d1: "transaction_status (connections (reset_transaction_status c1 (set_conn_pool c1 None s)) c1) \<noteq> UNKNOWN"
      and d2: "transaction_status (connections (reset_transaction_status c2
             (set_conn_pool c2 None (add_to_pool c1 t1 s))) c2) \<noteq> UNKNOWN"
  proof -
    let ?a = "add_to_pool c1 t1 s"
    let ?b = "add_to_pool c2 t2 ?a"
    have p1: "pool ?a = pool s @ [(c1, t1)] \<or> (pool s \<noteq> [] \<and> pool ?a = tl (pool s) @ [(c1, t1)])"
      using add_to_pool_deposit [OF w d1, of t1] m
      by (cases "pool s") (auto simp add: Let_def split: if_splits)
    then have ne: "pool ?a \<noteq> []" by auto
    have wa: "waiting ?a = []" using w by (simp add: add_to_pool_frame)
    have p2: "pool ?b = pool ?a @ [(c2, t2)] \<or> pool ?b = tl (pool ?a) @ [(c2, t2)]"
      using add_to_pool_deposit [OF wa d2, of t2] ne
      by (cases "pool ?a") (auto simp add: Let_def split: if_splits)
    then have l: "pool ?b \<noteq> [] \<and> fst (last (pool ?b)) = c2" by auto
    have "\<not> pool_closed ?b" using o by (simp add: add_to_pool_frame)
    with pop [of ?b] l show ?thesis by auto
  qed
  from pop [of s] add_to_pool_deposit [of s c now] lifo show ?thesis by blast
qed

theorem idle_lifo_fifo_eviction_witness:
  "\<not> pool_closed one_idle \<and> pool one_idle = [(0, 12)]
   \<and> fst (projr (getconn one_idle)) = Ready 0
   \<and> waiting one_idle = [] \<and> minconn one_idle < nconns one_idle
   \<and> max_idle one_idle < 100 - 12
   \<and> pool (add_to_pool 1 100 one_idle) = [(1, 100)]
   \<and> nconns (add_to_pool 1 100 one_idle) = 1
   \<and> conn_closed (connections (add_to_pool 1 100 one_idle) 0)
   \<and> trace (add_to_pool 1 100 one_idle)
       = [Acquire, Release, Acquire, Release, Acquire, SetNconns 2, Release,
          Acquire, Release, Acquire, Release, Acquire, SetNconns 1, Release, CallClose 0]
   \<and> \<not> max_idle one_idle < 13 - 12
   \<and> pool (add_to_pool 1 13 one_idle) = [(0, 12), (1, 13)]
   \<and> nconns (add_to_pool 1 13 one_idle) = 2
   \<and> waiting (run both_out wide_pool) = []
   \<and> fst (projr (getconn (add_to_pool 1 13 (add_to_pool 0 12 (run both_out wide_pool))))) = Ready 1"
proof -
  note t = idle_lifo_fifo_eviction
  have 1: "fst (projr (getconn one_idle)) = Ready 0"
    using t [where s = one_idle and c = 1 and now = 100 and ?c1.0 = 0 and ?c2.0 = 1
        and ?t1.0 = 0 and ?t2.0 = 0]
    by (auto simp add: one_idle_fields)
  have 2: "pool (add_to_pool 1 100 one_idle) = [(1, 100)]
     \<and> nconns (add_to_pool 1 100 one_idle) = 1
     \<and> conn_closed (connections (add_to_pool 1 100 one_idle) 0)
     \<and> trace (add_to_pool 1 100 one_idle)
       = [Acquire, Release, Acquire, Release, Acquire, SetNconns 2, Release,
          Acquire, Release, Acquire, Release, Acquire, SetNconns 1, Release, CallClose 0]"
    using t [where s = one_idle and c = 1 and now = 100 and ?c1.0 = 0 and ?c2.0 = 1
        and ?t1.0 = 0 and ?t2.0 = 0] one_idle_fields
    by (simp add: Let_def)
  have 3: "pool (add_to_pool 1 13 one_idle) = [(0, 12), (1, 13)]
     \<and> nconns (add_to_pool 1 13 one_idle) = 2"
    using t [where s = one_idle and c = 1 and now = 13 and ?c1.0 = 0 and ?c2.0 = 1
        and ?t1.0 = 0 and ?t2.0 = 0] one_idle_fields
    by (simp add: Let_def)
  have 4: "fst (projr (getconn (add_to_pool 1 13 (add_to_pool 0 12 (run both_out wide_pool))))) = Ready 1"
    using t [where s = "run both_out wide_pool" and c = 0 and now = 12 and ?c1.0 = 0
        and ?c2.0 = 1 and ?t1.0 = 12 and ?t2.0 = 13] one_idle_fields(7)
    by (auto simp add: both_out_fields one_idle_def)
  from 1 2 3 4 show ?thesis by (simp add: one_idle_fields both_out_fields)
qed

subsection \<open>C7: no waiter beside an idle connection\<close>

text \<open>
  C7. In every reachable state, if the queue of waiting clients is not empty then the idle
  deque is empty. Every action preserves this; \<open>getconn\<close> changes the queue of waiting
  clients only when it found the idle deque empty, and \<open>_add_to_pool\<close> changes the idle
  deque only when it found no waiting client.
\<close>

theorem no_waiter_with_idle:
  "(reachable s \<longrightarrow> (waiting s \<noteq> [] \<longrightarrow> pool s = []))
   \<and> ((waiting s \<noteq> [] \<longrightarrow> pool s = []) \<longrightarrow>
        (waiting (step a s) \<noteq> [] \<longrightarrow> pool (step a s) = []))
   \<and> (\<forall>r s1. getconn s = Inr (r, s1) \<and> waiting s1 \<noteq> waiting s \<longrightarrow> pool s = [])
   \<and> (pool (add_to_pool c now s) \<noteq> pool s \<longrightarrow> waiting s = [])"
proof -
  have 1: "reachable s \<longrightarrow> (waiting s \<noteq> [] \<longrightarrow> pool s = [])"
    using reachable_waiting_pool by blast
  have 2: "(waiting s \<noteq> [] \<longrightarrow> pool s = []) \<longrightarrow>
        (waiting (step a s) \<noteq> [] \<longrightarrow> pool (step a s) = [])"
    using step_waiting_pool by blast
  have 3: "\<forall>r s1. getconn s = Inr (r, s1) \<and> waiting s1 \<noteq> waiting s \<longrightarrow> pool s = []"
    using getconn_fields(6) by blast
  have 4: "pool (add_to_pool c now s) \<noteq> pool s \<longrightarrow> waiting s = []"
    by (auto simp add: add_to_pool_def add_to_pool_locked_def Let_def reset_fields small_defs
        split: list.splits option.splits prod.splits if_splits)
  from 1 2 3 4 show ?thesis by blast
qed


theorem no_waiter_with_idle_witness:
  "reachable (run two_waiters_run example_pool)
   \<and> waiting (run two_waiters_run example_pool) = [0, 1]
   \<and> pool (run two_waiters_run example_pool) = []
   \<and> waiting (step Getconn (run two_waiters_run example_pool)) = [0, 1, 2]
   \<and> pool (step Getconn (run two_waiters_run example_pool)) = []
   \<and> waiting (run checked_out example_pool) \<noteq> waiting (snd (projr (getconn (run checked_out example_pool))))
   \<and> pool (run checked_out example_pool) = []
   \<and> pool (add_to_pool 0 20 (run (checked_out @ [Putconn 0]) example_pool))
       \<noteq> pool (run (checked_out @ [Putconn 0]) example_pool)
   \<and> waiting (run (checked_out @ [Putconn 0]) example_pool) = []"
proof -
  let ?s = "run two_waiters_run example_pool"
  let ?t = "run checked_out example_pool"
  let ?u = "run (checked_out @ [Putconn 0]) example_pool"
  have w: "waiting ?s = [0, 1]" by code_simp
  have g: "\<not> isl (getconn ?t)" by code_simp
  then obtain r s1 where g1: "getconn ?t = Inr (r, s1)" by (cases "getconn ?t") auto
  have g2: "waiting ?t \<noteq> waiting (snd (projr (getconn ?t)))" by code_simp
  have a: "pool (add_to_pool 0 20 ?u) \<noteq> pool ?u" by code_simp
  from no_waiter_with_idle [of ?s] reachable_example [of two_waiters_run] w
  have 1: "pool ?s = []" by simp
  have w2: "waiting (step Getconn ?s) = [0, 1, 2]" by code_simp
  from no_waiter_with_idle [of ?s Getconn] 1 w2
  have p2: "pool (step Getconn ?s) = []" by simp
  from no_waiter_with_idle [of ?t] g1 g2 have 2: "pool ?t = []" by auto
  from no_waiter_with_idle [of ?u _ 0 20] a have 3: "waiting ?u = []" by blast
  from reachable_example [of two_waiters_run] w 1 w2 p2 g2 2 a 3 show ?thesis by blast
qed

subsection \<open>C8: the reset at deposit, and discarding\<close>

text \<open>
  C8. \<open>_reset_transaction_status\<close> does nothing to a connection whose status is
  \<open>IDLE\<close>; for \<open>INTRANS\<close> and \<open>INERROR\<close> it calls \<open>rollback\<close> and, if that raises,
  closes the connection; for \<open>ACTIVE\<close> it closes the connection; for \<open>UNKNOWN\<close> it
  does nothing. Whenever the status after the reset is \<open>UNKNOWN\<close>, \<open>_add_to_pool\<close>
  puts the connection nowhere, posts a fresh \<open>AddConnection\<close>, and leaves \<open>_nconns\<close>,
  the idle deque and the waiting clients as they were.
\<close>

theorem reset_by_status:
  "(transaction_status (connections s c) = IDLE \<longrightarrow> reset_transaction_status c s = s)
   \<and> ((transaction_status (connections s c) = INTRANS \<or> transaction_status (connections s c) = INERROR)
        \<and> \<not> rollback_raises (connections s c) \<longrightarrow>
        trace (reset_transaction_status c s) = trace s @ [CallRollback c]
        \<and> transaction_status (connections (reset_transaction_status c s) c) = IDLE
        \<and> conn_closed (connections (reset_transaction_status c s) c) = conn_closed (connections s c))
   \<and> ((transaction_status (connections s c) = INTRANS \<or> transaction_status (connections s c) = INERROR)
        \<and> rollback_raises (connections s c) \<longrightarrow>
        trace (reset_transaction_status c s) = trace s @ [CallRollback c, CallClose c]
        \<and> transaction_status (connections (reset_transaction_status c s) c) = UNKNOWN
        \<and> conn_closed (connections (reset_transaction_status c s) c))
   \<and> (transaction_status (connections s c) = ACTIVE \<longrightarrow>
        trace (reset_transaction_status c s) = trace s @ [CallClose c]
        \<and> transaction_status (connections (reset_transaction_status c s) c) = UNKNOWN
        \<and> conn_closed (connections (reset_transaction_status c s) c))
   \<and> (transaction_status (connections s c) = UNKNOWN \<longrightarrow> reset_transaction_status c s = s)
   \<and> (transaction_status (connections (reset_transaction_status c (set_conn_pool c None s)) c) = UNKNOWN \<longrightarrow>
        nconns (add_to_pool c now s) = nconns s
        \<and> pool (add_to_pool c now s) = pool s
        \<and> waiting (add_to_pool c now s) = waiting s
        \<and> waiters (add_to_pool c now s) = waiters s
        \<and> wqueue (add_to_pool c now s) = wqueue s @ [AddConnection_init])"
  by (cases "transaction_status (connections s c)")
     (auto simp add: reset_transaction_status_def add_to_pool_def small_defs Let_def)

theorem reset_by_status_witness:
  "transaction_status (connections (dirty_pool INERROR True) 0) = INERROR
   \<and> rollback_raises (connections (dirty_pool INERROR True) 0)
   \<and> trace (reset_transaction_status 0 (dirty_pool INERROR True))
       = [Acquire, Release, Acquire, Release, CallRollback 0, CallClose 0]
   \<and> nconns (add_to_pool 0 20 (dirty_pool INERROR True)) = 1
   \<and> wqueue (add_to_pool 0 20 (dirty_pool INERROR True)) = [AddConnection_init]
   \<and> pool (add_to_pool 0 20 (dirty_pool INERROR True)) = []
   \<and> transaction_status (connections (dirty_pool IDLE False) 0) = IDLE
   \<and> trace (reset_transaction_status 0 (dirty_pool IDLE False)) = [Acquire, Release, Acquire, Release]
   \<and> transaction_status (connections (dirty_pool INTRANS False) 0) = INTRANS
   \<and> transaction_status (connections (reset_transaction_status 0 (dirty_pool INTRANS False)) 0) = IDLE
   \<and> transaction_status (connections (dirty_pool ACTIVE False) 0) = ACTIVE
   \<and> conn_closed (connections (reset_transaction_status 0 (dirty_pool ACTIVE False)) 0)
   \<and> transaction_status (connections (dirty_pool UNKNOWN False) 0) = UNKNOWN
   \<and> trace (reset_transaction_status 0 (dirty_pool UNKNOWN False)) = [Acquire, Release, Acquire, Release]"
proof -
  have u: "transaction_status (connections
      (reset_transaction_status 0 (set_conn_pool 0 None (dirty_pool INERROR True))) 0) = UNKNOWN"
    unfolding dirty_pool_def by code_simp
  have p: "pool (dirty_pool INERROR True) = []" unfolding dirty_pool_def by code_simp
  show ?thesis
    using reset_by_status [of "dirty_pool INERROR True" 0 20]
      reset_by_status [of "dirty_pool IDLE False" 0 20]
      reset_by_status [of "dirty_pool INTRANS False" 0 20]
      reset_by_status [of "dirty_pool ACTIVE False" 0 20]
      reset_by_status [of "dirty_pool UNKNOWN False" 0 20] u p
    by (simp add: dirty_pool_fields)
qed

subsection \<open>C9: putconn\<close>

text \<open>
  C9. \<open>putconn\<close> raises \<open>ValueError\<close> exactly when the back-reference of the connection
  is absent or names another pool. When the back-reference is this pool and the pool is
  closed, it clears the back-reference and closes the connection on the spot, and no task
  is posted. When the pool is open it posts a \<open>ReturnConnection\<close> task and changes
  nothing else, the connection included.
\<close>

theorem putconn_cases:
  "(isl (putconn c s) \<longleftrightarrow> conn_pool (connections s c) \<noteq> Some (pool_id s))
   \<and> (conn_pool (connections s c) \<noteq> Some (pool_id s) \<longrightarrow> putconn c s = Inl ValueError)
   \<and> (conn_pool (connections s c) = Some (pool_id s) \<and> pool_closed s \<longrightarrow>
        (\<exists>s'. putconn c s = Inr s' \<and> conn_pool (connections s' c) = None
            \<and> conn_closed (connections s' c) \<and> wqueue s' = wqueue s \<and> sched s' = sched s
            \<and> trace s' = trace s @ [CallClose c]))
   \<and> (conn_pool (connections s c) = Some (pool_id s) \<and> \<not> pool_closed s \<longrightarrow>
        putconn c s = Inr (s\<lparr>wqueue := wqueue s @ [ReturnConnection c]\<rparr>))"
  by (simp add: putconn_def small_defs)

theorem putconn_cases_witness:
  "conn_pool (connections (run checked_out example_pool) 5)
     \<noteq> Some (pool_id (run checked_out example_pool))
   \<and> putconn 5 (run checked_out example_pool) = Inl ValueError
   \<and> conn_pool (connections (run checked_out example_pool) 0)
     = Some (pool_id (run checked_out example_pool))
   \<and> \<not> pool_closed (run checked_out example_pool)
   \<and> wqueue (projr (putconn 0 (run checked_out example_pool))) = [ReturnConnection 0]
   \<and> pool_closed (run (checked_out @ [CloseFlag]) example_pool)
   \<and> conn_closed (connections (projr (putconn 0 (run (checked_out @ [CloseFlag]) example_pool))) 0)"
proof -
  let ?s = "run checked_out example_pool"
  let ?t = "run (checked_out @ [CloseFlag]) example_pool"
  have a: "conn_pool (connections ?s 5) \<noteq> Some (pool_id ?s)" by code_simp
  have b: "conn_pool (connections ?s 0) = Some (pool_id ?s) \<and> \<not> pool_closed ?s" by code_simp
  have c: "conn_pool (connections ?t 0) = Some (pool_id ?t) \<and> pool_closed ?t" by code_simp
  have w: "wqueue ?s = []" by code_simp
  from a putconn_cases [of 5 ?s] have 1: "putconn 5 ?s = Inl ValueError" by blast
  from b putconn_cases [of 0 ?s]
  have "putconn 0 ?s = Inr (?s\<lparr>wqueue := wqueue ?s @ [ReturnConnection 0]\<rparr>)" by blast
  with w have 2: "wqueue (projr (putconn 0 ?s)) = [ReturnConnection 0]" by simp
  from c putconn_cases [of 0 ?t]
  obtain s' where "putconn 0 ?t = Inr s'" "conn_closed (connections s' 0)" by blast
  then have 3: "conn_closed (connections (projr (putconn 0 ?t)) 0)" by simp
  from a b c 1 2 3 show ?thesis by blast
qed

subsection \<open>C10: the first failure never gives up\<close>

text \<open>
  C10. When the connect of a task as \<open>AddConnection.__init__\<close> makes it fails, whatever
  the clock, the random number and \<open>reconnect_timeout\<close> (zero included): \<open>_nconns\<close> is
  not changed, \<open>reconnect_failed\<close> is not called, and one retry is handed to the
  scheduler. So if a run of consecutive failures of a fresh task has called
  \<open>reconnect_failed\<close>, the run has at least two failures.
\<close>

theorem first_failure_retries:
  "nconns (run_task AddConnection_init None now rnd s) = nconns s
   \<and> trace (run_task AddConnection_init None now rnd s) = trace s
   \<and> wqueue (run_task AddConnection_init None now rnd s) = wqueue s
   \<and> sched (run_task AddConnection_init None now rnd s)
       = sched s @
         [let d = INITIAL_DELAY + INITIAL_DELAY * (2 * DELAY_JITTER * rnd - DELAY_JITTER);
              g = now + reconnect_timeout s
          in if now + d < g then Enter d (Some (AddConnection d g))
             else EnterAbs g (Some (AddConnection d g))]
   \<and> (CallReconnectFailed \<in> set (trace (run (failures fs) (s\<lparr>wqueue := [AddConnection_init], sched := []\<rparr>)))
        \<and> CallReconnectFailed \<notin> set (trace s) \<longrightarrow> 2 \<le> length fs)"
proof -
  let ?s0 = "s\<lparr>wqueue := [AddConnection_init], sched := []\<rparr>"
  have b: "trace (run (failures fs) ?s0) = trace s" if "length fs < 2"
  proof (cases fs)
    case Nil
    then show ?thesis by simp
  next
    case (Cons f fs')
    with that have fs: "fs = [f]" by simp
    obtain t r where f: "f = (t, r)" by (cases f)
    have "trace (work 0 None t r ?s0) = trace s"
      by (simp add: work_def first_failure_step)
    then show ?thesis
      by (simp add: fs f fire_def add_task_def Let_def split: sched_entry.splits option.splits)
  qed
  have c: "CallReconnectFailed \<in> set (trace (run (failures fs) ?s0))
        \<and> CallReconnectFailed \<notin> set (trace s) \<longrightarrow> 2 \<le> length fs"
  proof (cases "length fs < 2")
    case True
    then show ?thesis by (simp add: b)
  next
    case False
    then show ?thesis by simp
  qed
  from first_failure_step [of now rnd s] c show ?thesis by blast
qed

theorem first_failure_retries_witness:
  "nconns (run_task AddConnection_init None 21 (1 / 2) (example_pool\<lparr>reconnect_timeout := 0\<rparr>)) = 1
   \<and> sched (run_task AddConnection_init None 21 (1 / 2) (example_pool\<lparr>reconnect_timeout := 0\<rparr>))
       = [EnterAbs 21 (Some (AddConnection 1 21))]
   \<and> CallReconnectFailed \<in> set (trace (run (failures [(21, 1 / 2), (22, 0)])
         (example_pool\<lparr>reconnect_timeout := 0, wqueue := [AddConnection_init], sched := []\<rparr>)))
   \<and> CallReconnectFailed \<notin> set (trace example_pool)
   \<and> (2::nat) \<le> length [(21::real, 1 / 2 :: real), (22, 0)]"
proof -
  let ?s = "example_pool\<lparr>reconnect_timeout := 0\<rparr>"
  have e1: "nconns ?s = 1" "sched ?s = []" "reconnect_timeout ?s = 0" "trace ?s = []"
    by (simp_all add: example_pool_def)
  have e2: "CallReconnectFailed \<in> set (trace (run (failures [(21, 1 / 2), (22, 0)])
         (?s\<lparr>wqueue := [AddConnection_init], sched := []\<rparr>)))"
    by code_simp
  have e3: "CallReconnectFailed \<notin> set (trace example_pool)" by (simp add: example_pool_def)
  from first_failure_retries [of 21 "1 / 2" ?s "[(21, 1 / 2), (22, 0)]"] e1 e2 e3
  show ?thesis
    by (simp add: INITIAL_DELAY_def DELAY_JITTER_def Let_def)
qed

end
